theory Spec2Isabelle
  imports Main "HOL-Library.Log_Nat"
begin

section \<open>Python values used by the scraper\<close>

text \<open>
  The scraper (\<open>reddit_subreddit_scraper.py\<close>) is modelled function by function.
  A Python \<open>str\<close> is a \<open>string\<close>; text outside ASCII is held as its UTF-8 bytes.
  Case folding, whitespace and digits are modelled for the ASCII range, which is where
  the scraper's literals (\<open>points\<close>, \<open>k\<close>, \<open>/comments/\<close>, \<open>min\<close>, ...) live.
  An exception is a value of type \<open>error\<close>; a function that can raise returns
  \<open>error + 'a\<close>, with \<open>Inl\<close> for the exception.
\<close>

datatype error = ValueError | OverflowError | IndexError

subsection \<open>The methods of \<open>str\<close>\<close>

text \<open>\<open>str.isspace\<close> on ASCII: tab, LF, VT, FF, CR, the separators 28 to 31, and space.\<close>

definition is_space :: "char \<Rightarrow> bool" where
  "is_space c = (of_char c \<in> {9, 10, 11, 12, 13, 28, 29, 30, 31, 32 :: nat})"

text \<open>\<open>s.strip()\<close>\<close>

definition str_strip :: "string \<Rightarrow> string" where
  "str_strip s = rev (dropWhile is_space (rev (dropWhile is_space s)))"

text \<open>\<open>s.lower()\<close>: the letters A to Z become a to z.\<close>

definition lower_char :: "char \<Rightarrow> char" where
  "lower_char c =
     (case map_of (zip ''ABCDEFGHIJKLMNOPQRSTUVWXYZ'' ''abcdefghijklmnopqrstuvwxyz'') c of
        Some l \<Rightarrow> l
      | None \<Rightarrow> c)"

definition str_lower :: "string \<Rightarrow> string" where
  "str_lower s = map lower_char s"

text \<open>\<open>s.startswith(p)\<close> and \<open>s.endswith(p)\<close>\<close>

definition str_startswith :: "string \<Rightarrow> string \<Rightarrow> bool" where
  "str_startswith s p = (take (length p) s = p)"

definition str_endswith :: "string \<Rightarrow> string \<Rightarrow> bool" where
  "str_endswith s p = (length p \<le> length s \<and> drop (length s - length p) s = p)"

text \<open>\<open>sub in s\<close>\<close>

fun str_contains :: "string \<Rightarrow> string \<Rightarrow> bool" where
  "str_contains [] sub = (sub = [])"
| "str_contains (c # cs) sub = (str_startswith (c # cs) sub \<or> str_contains cs sub)"

text \<open>
  \<open>s.replace(old, new)\<close>: the occurrences of \<open>old\<close> are replaced from the left, without
  overlap; an empty \<open>old\<close> matches before every character and at the end.
\<close>

fun str_replace :: "string \<Rightarrow> string \<Rightarrow> string \<Rightarrow> string" where
  "str_replace [] old new = (if old = [] then new else [])"
| "str_replace (c # cs) old new =
     (if old = [] then new @ c # str_replace cs old new
      else if str_startswith (c # cs) old
        then new @ str_replace (drop (length old - 1) cs) old new
        else c # str_replace cs old new)"

text \<open>
  \<open>s.split(sep)\<close> for a separator that is not empty, as every separator of the
  scraper is: cut at every occurrence of \<open>sep\<close>, from the left and without overlap.
  \<open>cur\<close> holds the current piece, reversed.
\<close>

fun split_from :: "string \<Rightarrow> string \<Rightarrow> string \<Rightarrow> string list" where
  "split_from cur [] sep = [rev cur]"
| "split_from cur (c # cs) sep =
     (if sep \<noteq> [] \<and> str_startswith (c # cs) sep
        then rev cur # split_from [] (drop (length sep - 1) cs) sep
        else split_from (c # cur) cs sep)"

definition str_split :: "string \<Rightarrow> string \<Rightarrow> string list" where
  "str_split s sep = split_from [] s sep"

text \<open>\<open>s.split()\<close>: the maximal runs of characters that are not whitespace.\<close>

fun words_from :: "string \<Rightarrow> string \<Rightarrow> string list" where
  "words_from cur [] = (if cur = [] then [] else [rev cur])"
| "words_from cur (c # cs) =
     (if is_space c
        then (if cur = [] then words_from [] cs else rev cur # words_from [] cs)
        else words_from (c # cur) cs)"

definition str_split_ws :: "string \<Rightarrow> string list" where
  "str_split_ws s = words_from [] s"

text \<open>\<open>xs[i]\<close> for \<open>i \<ge> 0\<close>: out of range raises \<open>IndexError\<close>.\<close>

definition subscript :: "'a list \<Rightarrow> nat \<Rightarrow> error + 'a" where
  "subscript xs i = (if i < length xs then Inr (xs ! i) else Inl IndexError)"

subsection \<open>\<open>float\<close>\<close>

text \<open>
  A Python \<open>float\<close> is an IEEE 754 binary64 value: a rational that binary64 represents,
  an infinity or a NaN. The sign of a zero is not kept: \<open>int\<close> and \<open>timedelta\<close>, the
  only consumers here, read both zeros as 0. Arithmetic rounds the exact result to the
  nearest binary64 value, ties to even.
\<close>

datatype pyfloat = Finite rat | PInf | NInf | NaN

definition round_half_even :: "rat \<Rightarrow> int" where
  "round_half_even x =
     (let f = \<lfloor>x\<rfloor>; d = x - of_int f
      in if d < 1 / 2 then f else if 1 / 2 < d then f + 1 else if even f then f else f + 1)"

text \<open>For \<open>x > 0\<close>, \<open>binade x\<close> is the \<open>e\<close> with \<open>2 ^ e \<le> x < 2 ^ (e + 1)\<close>.\<close>

definition binade :: "rat \<Rightarrow> int" where
  "binade x =
     (let (a, b) = quotient_of x; d = bitlen a - bitlen b
      in if 2 powi d \<le> x then d else d - 1)"

text \<open>
  Rounding to binary64. The magnitude is written \<open>m * 2 ^ (e - 52)\<close> with the
  significand \<open>m\<close> rounded to an integer, ties to even; \<open>e\<close> is the binade of the
  magnitude, and -1022 below that (the subnormal values, spaced \<open>2 ^ -1074\<close>). The
  result overflows to an infinity when the rounded magnitude reaches \<open>2 ^ 1024\<close>,
  that is, when \<open>e > 1023\<close>, or \<open>e = 1023\<close> and the significand rounds up to \<open>2 ^ 53\<close>.
\<close>

definition double_exponent :: "rat \<Rightarrow> int" where
  "double_exponent a = max (binade a) (- 1022)"

definition double_significand :: "rat \<Rightarrow> int" where
  "double_significand a = round_half_even (a / 2 powi (double_exponent a - 52))"

definition overflows :: "rat \<Rightarrow> bool" where
  "overflows a =
     (1023 < double_exponent a \<or> (double_exponent a = 1023 \<and> 2 ^ 53 \<le> double_significand a))"

definition round_to_double :: "rat \<Rightarrow> pyfloat" where
  "round_to_double x =
     (if x = 0 then Finite 0
      else let a = \<bar>x\<bar>
           in if overflows a then (if 0 < x then PInf else NInf)
              else Finite ((if 0 < x then 1 else - 1) * of_int (double_significand a)
                           * 2 powi (double_exponent a - 52)))"

definition float_sign :: "pyfloat \<Rightarrow> int option" where
  "float_sign x =
     (case x of
        Finite q \<Rightarrow> Some (if 0 < q then 1 else if q < 0 then - 1 else 0)
      | PInf \<Rightarrow> Some 1
      | NInf \<Rightarrow> Some (- 1)
      | NaN \<Rightarrow> None)"

text \<open>\<open>x <= y\<close>: false when a side is a NaN.\<close>

definition float_le :: "pyfloat \<Rightarrow> pyfloat \<Rightarrow> bool" where
  "float_le x y =
     (case (x, y) of
        (Finite p, Finite q) \<Rightarrow> p \<le> q
      | (NaN, _) \<Rightarrow> False
      | (_, NaN) \<Rightarrow> False
      | (NInf, _) \<Rightarrow> True
      | (_, PInf) \<Rightarrow> True
      | _ \<Rightarrow> False)"

text \<open>\<open>x * y\<close>\<close>

definition float_mul :: "pyfloat \<Rightarrow> pyfloat \<Rightarrow> pyfloat" where
  "float_mul x y =
     (case (x, y) of
        (Finite p, Finite q) \<Rightarrow> round_to_double (p * q)
      | _ \<Rightarrow>
          (case (float_sign x, float_sign y) of
             (Some s, Some t) \<Rightarrow> if s * t = 0 then NaN else if 0 < s * t then PInf else NInf
           | _ \<Rightarrow> NaN))"

text \<open>\<open>x / k\<close> for a finite \<open>k > 0\<close>\<close>

definition float_div_pos :: "pyfloat \<Rightarrow> rat \<Rightarrow> pyfloat" where
  "float_div_pos x k = (case x of Finite p \<Rightarrow> round_to_double (p / k) | _ \<Rightarrow> x)"

text \<open>\<open>x > n\<close> for an \<open>int\<close> \<open>n\<close>: the comparison is exact.\<close>

definition float_gt_int :: "pyfloat \<Rightarrow> int \<Rightarrow> bool" where
  "float_gt_int x n =
     (case x of Finite p \<Rightarrow> of_int n < p | PInf \<Rightarrow> True | NInf \<Rightarrow> False | NaN \<Rightarrow> False)"

definition trunc :: "rat \<Rightarrow> int" where
  "trunc x = (if 0 \<le> x then \<lfloor>x\<rfloor> else - \<lfloor>- x\<rfloor>)"

text \<open>
  \<open>int(x)\<close> truncates towards zero; it raises \<open>OverflowError\<close> on an infinity and
  \<open>ValueError\<close> on a NaN.
\<close>

definition int_of_float :: "pyfloat \<Rightarrow> error + int" where
  "int_of_float x =
     (case x of
        Finite q \<Rightarrow> Inr (trunc q)
      | NaN \<Rightarrow> Inl ValueError
      | _ \<Rightarrow> Inl OverflowError)"

subsection \<open>\<open>float(s)\<close>\<close>

text \<open>
  CPython reads a \<open>str\<close> in three steps. Underscores may stand between two digits only
  and are removed. Whitespace of the C locale (tab, LF, VT, FF, CR, space) is stripped at
  both ends. What is left is a decimal number \<open>[sign] digits [. digits] [e [sign] digits]\<close>
  with at least one digit before the exponent, or \<open>[sign] inf\<close>, \<open>[sign] infinity\<close>,
  \<open>[sign] nan\<close> in any case; anything else raises \<open>ValueError\<close>. The decimal number is
  rounded correctly to binary64.
\<close>

definition is_digit :: "char \<Rightarrow> bool" where
  "is_digit c = (c \<in> set ''0123456789'')"

definition digit_val :: "char \<Rightarrow> int" where
  "digit_val c = of_char c - 48"

fun digits_val :: "int \<Rightarrow> string \<Rightarrow> int" where
  "digits_val acc [] = acc"
| "digits_val acc (c # cs) = digits_val (10 * acc + digit_val c) cs"

fun underscores_ok :: "char \<Rightarrow> string \<Rightarrow> bool" where
  "underscores_ok prev [] = (prev \<noteq> CHR ''_'')"
| "underscores_ok prev (c # cs) =
     ((if c = CHR ''_'' then is_digit prev else (prev = CHR ''_'' \<longrightarrow> is_digit c))
      \<and> underscores_ok c cs)"

definition c_isspace :: "char \<Rightarrow> bool" where
  "c_isspace c = (of_char c \<in> {9, 10, 11, 12, 13, 32 :: nat})"

definition c_strip :: "string \<Rightarrow> string" where
  "c_strip s = rev (dropWhile c_isspace (rev (dropWhile c_isspace s)))"

definition take_sign :: "string \<Rightarrow> bool \<times> string" where
  "take_sign s =
     (case s of
        [] \<Rightarrow> (False, [])
      | c # cs \<Rightarrow>
          if c = CHR ''-'' then (True, cs) else if c = CHR ''+'' then (False, cs) else (False, s))"

text \<open>
  The exponent and what follows it. An \<open>e\<close> with no digit after it is not part of the
  number: it is left unread.
\<close>

definition parse_exponent :: "string \<Rightarrow> int \<times> string" where
  "parse_exponent s =
     (case s of
        [] \<Rightarrow> (0, [])
      | c # cs \<Rightarrow>
          if c = CHR ''e'' \<or> c = CHR ''E''
          then (let (neg, r) = take_sign cs;
                    ds = takeWhile is_digit r
                in if ds = [] then (0, s)
                   else (if neg then - digits_val 0 ds else digits_val 0 ds,
                         dropWhile is_digit r))
          else (0, s))"

text \<open>
  \<open>strtod\<close> returns the value of the longest decimal number the text starts with and
  the rest of the text, or \<open>None\<close> when the text starts with no number.
\<close>

definition strtod :: "string \<Rightarrow> (pyfloat \<times> string) option" where
  "strtod s =
     (let (neg, r) = take_sign s;
          ip = takeWhile is_digit r;
          r1 = dropWhile is_digit r;
          (fp, r2) = (case r1 of
                        [] \<Rightarrow> ([], [])
                      | c # cs \<Rightarrow> if c = CHR ''.''
                                  then (takeWhile is_digit cs, dropWhile is_digit cs)
                                  else ([], r1))
      in if ip = [] \<and> fp = [] then None
         else let (ex, r3) = parse_exponent r2;
                  q = of_int (digits_val 0 (ip @ fp)) * 10 powi (ex - int (length fp))
              in Some (round_to_double (if neg then - q else q), r3))"

definition ci_match :: "string \<Rightarrow> string \<Rightarrow> bool" where
  "ci_match s p = (map lower_char (take (length p) s) = p)"

definition parse_inf_or_nan :: "string \<Rightarrow> (pyfloat \<times> string) option" where
  "parse_inf_or_nan s =
     (let (neg, r) = take_sign s
      in if ci_match r ''inf''
         then Some (if neg then NInf else PInf,
                    if ci_match (drop 3 r) ''inity'' then drop 8 r else drop 3 r)
         else if ci_match r ''nan'' then Some (NaN, drop 3 r)
         else None)"

definition py_float :: "string \<Rightarrow> error + pyfloat" where
  "py_float s =
     (if \<not> underscores_ok (CHR 0x00) s then Inl ValueError
      else let t = c_strip (filter (\<lambda>c. c \<noteq> CHR ''_'') s)
           in if t = [] then Inl ValueError
              else (case (case strtod t of None \<Rightarrow> parse_inf_or_nan t | Some r \<Rightarrow> Some r) of
                      None \<Rightarrow> Inl ValueError
                    | Some (x, rest) \<Rightarrow> if rest = [] then Inr x else Inl ValueError))"

section \<open>The score parser (\<open>parse_score_text\<close>, lines 72 to 85)\<close>

text \<open>The placeholder U+2022, as its UTF-8 bytes.\<close>

definition bullet :: string where
  "bullet = [CHR 0xE2, CHR 0x80, CHR 0xA2]"

text \<open>
  \<^verbatim>\<open>
  cleaned = score_text.strip().lower().replace("points", "").replace("point", "")
  cleaned = cleaned.replace("votes", "").replace("vote", "").strip()
  if not cleaned or cleaned in {bullet}:
      return 0
  multiplier = 1
  if cleaned.endswith("k"):
      multiplier = 1000
      cleaned = cleaned[:-1]
  try:
      value = float(cleaned)
      return int(value * multiplier)
  except ValueError:
      return 0
  \<close>
  Both \<open>float\<close> and \<open>int\<close> stand under the \<open>try\<close>, which catches \<open>ValueError\<close> only.
\<close>

definition parse_score_text :: "string \<Rightarrow> error + int" where
  "parse_score_text score_text =
     (let cleaned = str_replace (str_replace (str_lower (str_strip score_text)) ''points'' [])
                      ''point'' [];
          cleaned = str_strip (str_replace (str_replace cleaned ''votes'' []) ''vote'' [])
      in if cleaned = [] \<or> cleaned = bullet then Inr 0
         else let multiplier = (if str_endswith cleaned ''k'' then 1000 else 1 :: int);
                  cleaned = (if str_endswith cleaned ''k'' then butlast cleaned else cleaned)
              in (case py_float cleaned of
                    Inl ValueError \<Rightarrow> Inr 0
                  | Inl e \<Rightarrow> Inl e
                  | Inr val \<Rightarrow>
                      (case int_of_float (float_mul val (Finite (of_int multiplier))) of
                         Inl ValueError \<Rightarrow> Inr 0
                       | Inl e \<Rightarrow> Inl e
                       | Inr n \<Rightarrow> Inr n)))"

section \<open>Dates and durations\<close>

text \<open>
  A naive \<open>datetime\<close> is its number of microseconds since 0001-01-01T00:00:00, from 0
  up to the last microsecond of the year 9999. A \<open>timedelta\<close> is its number of
  microseconds, of at most 999999999 days either way.
\<close>

type_synonym timestamp = int

definition us_per_second :: int where "us_per_second = 1000000"
definition us_per_minute :: int where "us_per_minute = 60000000"
definition us_per_hour :: int where "us_per_hour = 3600000000"
definition us_per_day :: int where "us_per_day = 86400000000"

text \<open>The first microsecond past \<open>datetime.max\<close>: 3652059 days.\<close>

definition datetime_end :: int where "datetime_end = 3652059 * 86400000000"

definition valid_datetime :: "timestamp \<Rightarrow> bool" where
  "valid_datetime t = (0 \<le> t \<and> t < datetime_end)"

text \<open>The argument of \<open>timedelta(minutes=...)\<close> is an \<open>int\<close> or a \<open>float\<close>.\<close>

datatype pynum = PyInt int | PyFloat pyfloat

text \<open>C's \<open>round\<close>: to the nearest integer, halves away from zero.\<close>

definition c_round :: "rat \<Rightarrow> int" where
  "c_round x = (if 0 \<le> x then \<lfloor>x + 1 / 2\<rfloor> else - \<lfloor>- x + 1 / 2\<rfloor>)"

text \<open>
  \<open>accum\<close> of CPython's \<open>timedelta\<close> constructor adds \<open>num * factor\<close> microseconds to
  \<open>sofar\<close>. An \<open>int\<close> is multiplied exactly. A \<open>float\<close> is cut by \<open>modf\<close> into its integer
  and fractional parts; the integer part is multiplied exactly (converting an infinity
  raises \<open>OverflowError\<close>, a NaN \<open>ValueError\<close>); the fractional part is multiplied in
  floating point, the integer part of that product is added, and its fractional part is
  returned as the leftover.
\<close>

definition accum :: "int \<Rightarrow> pynum \<Rightarrow> int \<Rightarrow> error + int \<times> rat" where
  "accum sofar num factor =
     (case num of
        PyInt n \<Rightarrow> Inr (sofar + n * factor, 0)
      | PyFloat NaN \<Rightarrow> Inl ValueError
      | PyFloat PInf \<Rightarrow> Inl OverflowError
      | PyFloat NInf \<Rightarrow> Inl OverflowError
      | PyFloat (Finite dnum) \<Rightarrow>
          (let intpart = trunc dnum;
               fracpart = dnum - of_int intpart;
               sum = sofar + intpart * factor
           in if fracpart = 0 then Inr (sum, 0)
              else (case float_mul (Finite (of_int factor)) (Finite fracpart) of
                      Finite d \<Rightarrow> Inr (sum + trunc d, d - of_int (trunc d))
                    | NaN \<Rightarrow> Inl ValueError
                    | _ \<Rightarrow> Inl OverflowError)))"

text \<open>
  The leftover is rounded to whole microseconds and added: to the nearest, and a leftover
  of exactly one half towards the even total.
  \<^verbatim>\<open>
  if (leftover_us) {
      double whole_us = round(leftover_us);
      if (fabs(whole_us - leftover_us) == 0.5) {
          x_is_odd = x & 1;
          whole_us = 2.0 * round((leftover_us + x_is_odd) * 0.5) - x_is_odd;
      }
      x = x + (long)whole_us;
  }
  \<close>
\<close>

definition add_leftover :: "int \<Rightarrow> rat \<Rightarrow> int" where
  "add_leftover x leftover_us =
     (if leftover_us = 0 then x
      else let whole_us = c_round leftover_us;
               x_is_odd = (if odd x then 1 else 0 :: int)
           in if \<bar>of_int whole_us - leftover_us\<bar> = 1 / 2
              then x + (2 * c_round ((leftover_us + of_int x_is_odd) * (1 / 2)) - x_is_odd)
              else x + whole_us)"

text \<open>A \<open>timedelta\<close> beyond 999999999 days raises \<open>OverflowError\<close>.\<close>

definition microseconds_to_delta :: "int \<Rightarrow> error + int" where
  "microseconds_to_delta us =
     (let days = us div us_per_day
      in if - 999999999 \<le> days \<and> days \<le> 999999999 then Inr us else Inl OverflowError)"

text \<open>
  \<open>timedelta\<close> with one keyword argument, whose unit is \<open>factor\<close> microseconds long:
  \<open>timedelta(minutes=num)\<close> is \<open>timedelta num us_per_minute\<close>.
\<close>

definition timedelta :: "pynum \<Rightarrow> int \<Rightarrow> error + int" where
  "timedelta num factor =
     (case accum 0 num factor of
        Inl e \<Rightarrow> Inl e
      | Inr (x, leftover_us) \<Rightarrow> microseconds_to_delta (add_leftover x leftover_us))"

text \<open>\<open>t - delta\<close> raises \<open>OverflowError\<close> when the date leaves the years 1 to 9999.\<close>

definition datetime_sub :: "timestamp \<Rightarrow> int \<Rightarrow> error + timestamp" where
  "datetime_sub t delta =
     (if valid_datetime (t - delta) then Inr (t - delta) else Inl OverflowError)"

text \<open>
  \<open>delta.total_seconds()\<close> is the true division of the microseconds by \<open>10 ** 6\<close>, an
  \<open>int\<close> by an \<open>int\<close>, which Python rounds correctly.
\<close>

definition total_seconds :: "int \<Rightarrow> pyfloat" where
  "total_seconds us = round_to_double (of_int us / 1000000)"

section \<open>The relative-age parser (\<open>parse_age_text\<close>, lines 88 to 115)\<close>

text \<open>
  \<^verbatim>\<open>
  try:
      amount_str = parts[0]
      if amount_str in {"a", "an"}:
          amount = 1
      else:
          amount = float(amount_str)
  except ValueError:
      return None
  \<close>
\<close>

definition parse_amount :: "string \<Rightarrow> error + pynum" where
  "parse_amount amount_str =
     (if amount_str = ''a'' \<or> amount_str = ''an'' then Inr (PyInt 1)
      else (case py_float amount_str of Inl e \<Rightarrow> Inl e | Inr x \<Rightarrow> Inr (PyFloat x)))"

text \<open>
  \<^verbatim>\<open>
  unit = parts[1] if len(parts) > 1 else ""
  if "min" in unit:
      delta = timedelta(minutes=amount)
  elif "hour" in unit or unit == "h":
      delta = timedelta(hours=amount)
  elif "sec" in unit or unit == "s":
      delta = timedelta(seconds=amount)
  else:
      return None
  \<close>
  \<open>unit_delta\<close> is \<open>None\<close> where the code returns \<open>None\<close>.
\<close>

definition unit_delta :: "pynum \<Rightarrow> string \<Rightarrow> (error + int) option" where
  "unit_delta amount unit =
     (if str_contains unit ''min'' then Some (timedelta amount us_per_minute)
      else if str_contains unit ''hour'' \<or> unit = ''h'' then Some (timedelta amount us_per_hour)
      else if str_contains unit ''sec'' \<or> unit = ''s'' then Some (timedelta amount us_per_second)
      else None)"

text \<open>
  \<^verbatim>\<open>
  text = age_text.strip().lower()
  now = datetime.utcnow()
  if not text:
      return None
  if text in {"just now", "moments ago"}:
      return now
  parts = text.split()
  if not parts:
      return None
  ...
  return now - delta
  \<close>
  \<open>now\<close> is what \<open>datetime.utcnow()\<close> returns. Only the \<open>ValueError\<close> of \<open>float\<close> is
  caught; what \<open>timedelta\<close> and the subtraction raise leaves the function.
  \<open>now_minus\<close> is \<open>now - delta\<close> for a \<open>delta\<close> whose computation may have raised.
\<close>

definition now_minus :: "timestamp \<Rightarrow> error + int \<Rightarrow> error + timestamp option" where
  "now_minus now delta =
     (case delta of
        Inl e \<Rightarrow> Inl e
      | Inr d \<Rightarrow> (case datetime_sub now d of Inl e \<Rightarrow> Inl e | Inr t \<Rightarrow> Inr (Some t)))"

definition parse_age_text :: "timestamp \<Rightarrow> string \<Rightarrow> error + timestamp option" where
  "parse_age_text now age_text =
     (let text = str_lower (str_strip age_text)
      in if text = [] then Inr None
         else if text = ''just now'' \<or> text = ''moments ago'' then Inr (Some now)
         else (case str_split_ws text of
                 [] \<Rightarrow> Inr None
               | amount_str # rest \<Rightarrow>
                   (case parse_amount amount_str of
                      Inl ValueError \<Rightarrow> Inr None
                    | Inl e \<Rightarrow> Inl e
                    | Inr amount \<Rightarrow>
                        (let unit = (case rest of [] \<Rightarrow> [] | u # _ \<Rightarrow> u)
                         in case unit_delta amount unit of
                              None \<Rightarrow> Inr None
                            | Some delta \<Rightarrow> now_minus now delta))))"

section \<open>Permalink and post id (\<open>scrape_subreddit\<close>, lines 180 to 190)\<close>

text \<open>
  \<^verbatim>\<open>
  if href.startswith("/"):
      post_url = f"https://www.reddit.com{href}"
  else:
      post_url = href
  \<close>
\<close>

definition resolve_permalink :: "string \<Rightarrow> string" where
  "resolve_permalink href =
     (if str_startswith href ''/'' then ''https://www.reddit.com'' @ href else href)"

text \<open>
  \<^verbatim>\<open>
  post_id = "unknown"
  if "/comments/" in post_url:
      try:
          post_id = post_url.split("/comments/")[1].split("/")[0]
      except IndexError:
          post_id = post_url
  \<close>
  \<open>split_segment\<close> is the expression under \<open>try\<close>; the only exception it can
  raise is the \<open>IndexError\<close> of a subscript.
\<close>

definition split_segment :: "string \<Rightarrow> error + string" where
  "split_segment post_url =
     (case subscript (str_split post_url ''/comments/'') 1 of
        Inl e \<Rightarrow> Inl e
      | Inr rest \<Rightarrow> subscript (str_split rest ''/'') 0)"

definition derive_post_id :: "string \<Rightarrow> string" where
  "derive_post_id post_url =
     (if str_contains post_url ''/comments/''
      then (case split_segment post_url of
              Inr seg \<Rightarrow> seg
            | Inl e \<Rightarrow> post_url)
      else ''unknown'')"

section \<open>The store (\<open>insert_reddit_post\<close>, lines 55 to 69)\<close>

record reddit_post =
  subreddit :: string
  post_id :: string
  post_url :: string
  score :: int
  created_at :: timestamp
  seen_at :: timestamp
  commented :: bool

text \<open>
  Modelled from the spec: the table \<open>reddit_posts\<close>, whose declaration is not in the
  repository. The spec makes \<open>post_id\<close> unique across the store, which is what
  \<open>ON CONFLICT (post_id)\<close> needs; the table is the list of its rows in insertion order.

  \<^verbatim>\<open>
  INSERT INTO reddit_posts (subreddit, post_id, post_url, score, created_at, seen_at, commented)
  VALUES ($1, $2, $3, $4, $5, NOW(), FALSE)
  ON CONFLICT (post_id) DO NOTHING;
  \<close>
  \<open>db_now\<close> is what \<open>NOW()\<close> returns when the statement runs. The statement raises
  nothing on a conflict, so the result is the new table.
\<close>

definition insert_reddit_post ::
  "reddit_post list \<Rightarrow> timestamp \<Rightarrow> string \<Rightarrow> string \<Rightarrow> string \<Rightarrow> int \<Rightarrow> timestamp
     \<Rightarrow> reddit_post list" where
  "insert_reddit_post conn db_now sub pid url sc created =
     (if pid \<in> set (map post_id conn) then conn
      else conn @ [\<lparr>subreddit = sub, post_id = pid, post_url = url, score = sc,
                    created_at = created, seen_at = db_now, commented = False\<rparr>])"

section \<open>One post of the page (\<open>scrape_subreddit\<close>, lines 136 to 200)\<close>

text \<open>
  What the DOM queries return for one post container. \<open>None\<close> is a query without a match
  or an attribute that is not there.
\<close>

record anchor_element =
  time_datetime :: "string option option"
  anchor_inner_text :: string

record post_element =
  h3_inner_text :: "string option"
  timestamp_anchor :: "anchor_element option"
  permalink_href :: "string option option"
  score_inner_text :: "string option"

text \<open>
  A \<open>datetime\<close> that may carry an offset. \<open>replace(tzinfo=None)\<close> drops the offset and
  keeps the wall clock, which is the field \<open>wall_clock\<close>.
\<close>

record pydatetime =
  wall_clock :: timestamp
  tz_offset :: "int option"

definition POST_MAX_AGE_HOURS :: int where "POST_MAX_AGE_HOURS = 4"

text \<open>
  \<^verbatim>\<open>
  age_hours = (datetime.utcnow() - datetime_value.replace(tzinfo=None)).total_seconds() / 3600
  \<close>
\<close>

definition age_hours :: "timestamp \<Rightarrow> timestamp \<Rightarrow> pyfloat" where
  "age_hours now created = float_div_pos (total_seconds (now - created)) 3600"

text \<open>
  \<^verbatim>\<open>
  if time_el:
      datetime_str = await time_el.get_attribute("datetime")
      if datetime_str:
          try:
              datetime_value = datetime.fromisoformat(datetime_str.replace("Z", "+00:00"))
          except ValueError:
              datetime_value = None
  if not datetime_value and timestamp_anchor:
      timestamp_text = (await timestamp_anchor.inner_text()).strip()
      datetime_value = parse_age_text(timestamp_text)
  \<close>
  \<open>datetime.fromisoformat\<close> is a parameter: \<open>None\<close> is its \<open>ValueError\<close>.
\<close>

definition iso_timestamp :: "(string \<Rightarrow> pydatetime option) \<Rightarrow> post_element \<Rightarrow> pydatetime option" where
  "iso_timestamp fromisoformat post =
     (case timestamp_anchor post of
        None \<Rightarrow> None
      | Some anchor \<Rightarrow>
          (case time_datetime anchor of
             Some (Some datetime_str) \<Rightarrow>
               if datetime_str = [] then None
               else fromisoformat (str_replace datetime_str ''Z'' ''+00:00'')
           | _ \<Rightarrow> None))"

definition read_timestamp ::
  "(string \<Rightarrow> pydatetime option) \<Rightarrow> timestamp \<Rightarrow> post_element \<Rightarrow> error + pydatetime option" where
  "read_timestamp fromisoformat now post =
     (case iso_timestamp fromisoformat post of
        Some d \<Rightarrow> Inr (Some d)
      | None \<Rightarrow>
          (case timestamp_anchor post of
             None \<Rightarrow> Inr None
           | Some anchor \<Rightarrow>
               (case parse_age_text now (str_strip (anchor_inner_text anchor)) of
                  Inl e \<Rightarrow> Inl e
                | Inr None \<Rightarrow> Inr None
                | Inr (Some t) \<Rightarrow> Inr (Some \<lparr>wall_clock = t, tz_offset = None\<rparr>))))"

text \<open>
  Why a post is left out, and the arguments of the call of \<open>insert_reddit_post\<close>
  otherwise: subreddit, post id, post URL, score and creation time.
\<close>

datatype skip = NoTitle | NoTimestamp | TooOld | NoPermalink | EmptyPermalink

datatype outcome = Skipped skip | Insert string string string int timestamp

text \<open>
  The body of the loop over the posts. \<open>now_parse\<close> is the clock that \<open>parse_age_text\<close>
  reads and \<open>now_check\<close> the clock of the age check. An exception leaves the loop.
\<close>

definition process_post ::
  "(string \<Rightarrow> pydatetime option) \<Rightarrow> timestamp \<Rightarrow> timestamp \<Rightarrow> string \<Rightarrow> post_element
     \<Rightarrow> error + outcome" where
  "process_post fromisoformat now_parse now_check sub post =
     (case h3_inner_text post of
        None \<Rightarrow> Inr (Skipped NoTitle)
      | Some title \<Rightarrow>
          if str_strip title = [] then Inr (Skipped NoTitle)
          else (case read_timestamp fromisoformat now_parse post of
                  Inl e \<Rightarrow> Inl e
                | Inr None \<Rightarrow> Inr (Skipped NoTimestamp)
                | Inr (Some datetime_value) \<Rightarrow>
                    if float_gt_int (age_hours now_check (wall_clock datetime_value))
                         POST_MAX_AGE_HOURS
                    then Inr (Skipped TooOld)
                    else (case permalink_href post of
                            None \<Rightarrow> Inr (Skipped NoPermalink)
                          | Some None \<Rightarrow> Inr (Skipped EmptyPermalink)
                          | Some (Some href) \<Rightarrow>
                              if href = [] then Inr (Skipped EmptyPermalink)
                              else (let post_url = resolve_permalink href;
                                        pid = derive_post_id post_url
                                    in case (case score_inner_text post of
                                               None \<Rightarrow> Inr 0
                                             | Some score_text \<Rightarrow>
                                                 parse_score_text (str_strip score_text)) of
                                         Inl e \<Rightarrow> Inl e
                                       | Inr sc \<Rightarrow>
                                           Inr (Insert sub pid post_url sc
                                                  (wall_clock datetime_value))))))"

text \<open>A post as the page shows it: a title, a relative age, a permalink and a score.\<close>

definition example_post :: post_element where
  "example_post =
     \<lparr>h3_inner_text = Some ''A title'',
      timestamp_anchor = Some \<lparr>time_datetime = None, anchor_inner_text = ''10 minutes ago''\<rparr>,
      permalink_href = Some (Some ''/r/x/comments/abc123/title/''),
      score_inner_text = Some ''2.3k''\<rparr>"



section \<open>Choosing the forums of a run (\<open>get_subreddits_for_this_loop\<close>, lines 210 to 215)\<close>

definition BATCH_MIN :: nat where "BATCH_MIN = 13"
definition BATCH_MAX :: nat where "BATCH_MAX = 31"

definition SUBREDDITS :: "string list" where
  "SUBREDDITS = [''GirlsWithGuns'', ''CountryGirls'', ''CamoGirls'', ''TacticalGirls'',
                 ''Outdoors'', ''Bushcraft'']"

text \<open>
  The random draws are inputs of the model. \<open>random.randint(a, b)\<close> returns some \<open>r\<close>
  with \<open>a \<le> r \<le> b\<close>. \<open>random.sample(population, k)\<close> picks \<open>k\<close> positions of the
  population, no position twice, and returns the elements there in the order picked:
  \<open>picks\<close> is that list of positions. A sample larger than the population raises
  \<open>ValueError\<close>.
\<close>

definition randint_draw :: "nat \<Rightarrow> nat \<Rightarrow> nat \<Rightarrow> bool" where
  "randint_draw a b r = (a \<le> r \<and> r \<le> b)"

definition sample_draw :: "nat \<Rightarrow> nat \<Rightarrow> nat list \<Rightarrow> bool" where
  "sample_draw n k picks = (length picks = k \<and> distinct picks \<and> list_all (\<lambda>i. i < n) picks)"

definition random_sample :: "'a list \<Rightarrow> nat \<Rightarrow> nat list \<Rightarrow> error + 'a list" where
  "random_sample population k picks =
     (if length population < k then Inl ValueError
      else Inr (map (\<lambda>i. population ! i) picks))"

text \<open>
  \<^verbatim>\<open>
  if not SUBREDDITS:
      return []
  batch_size = min(len(SUBREDDITS), random.randint(BATCH_MIN, BATCH_MAX))
  selected = random.sample(SUBREDDITS, batch_size)
  return selected
  \<close>
  The forum list is a parameter, so that the empty list can be stated; \<open>batch_size\<close> is
  the size the code asks \<open>random.sample\<close> for.
\<close>

definition batch_size :: "string list \<Rightarrow> nat \<Rightarrow> nat" where
  "batch_size subs r = min (length subs) r"

definition get_subreddits_for_this_loop ::
  "string list \<Rightarrow> nat \<Rightarrow> nat list \<Rightarrow> error + string list" where
  "get_subreddits_for_this_loop subs r picks =
     (if subs = [] then Inr [] else random_sample subs (batch_size subs r) picks)"

section \<open>Rounding to binary64 is monotone\<close>

lemma rhe_cases: "round_half_even x = \<lfloor>x\<rfloor> \<or> round_half_even x = \<lfloor>x\<rfloor> + 1"
  by (simp add: round_half_even_def Let_def)

lemma rhe_lower: "\<lfloor>x\<rfloor> \<le> round_half_even x"
  using rhe_cases [of x] by linarith

lemma rhe_upper: "round_half_even x \<le> \<lfloor>x\<rfloor> + 1"
  using rhe_cases [of x] by linarith

lemma rhe_of_int: "round_half_even (of_int n) = n"
  by (simp add: round_half_even_def Let_def)

lemma rhe_mono:
  assumes "x \<le> y"
  shows "round_half_even x \<le> round_half_even y"
proof (cases "\<lfloor>x\<rfloor> < \<lfloor>y\<rfloor>")
  case True
  then show ?thesis
    using rhe_upper [of x] rhe_lower [of y] by linarith
next
  case False
  then have eq: "\<lfloor>x\<rfloor> = \<lfloor>y\<rfloor>"
    using floor_mono [OF assms] by linarith
  have d: "x - of_int \<lfloor>y\<rfloor> \<le> y - of_int \<lfloor>y\<rfloor>"
    using assms by simp
  show ?thesis
    using d by (auto simp: round_half_even_def Let_def eq)
qed

lemma rhe_ge_int: "of_int n \<le> x \<Longrightarrow> n \<le> round_half_even x"
  using rhe_mono [of "of_int n" x] by (simp add: rhe_of_int)

lemma rhe_le_int: "x \<le> of_int n \<Longrightarrow> round_half_even x \<le> n"
  using rhe_mono [of x "of_int n"] by (simp add: rhe_of_int)

lemma powi_nat: "0 \<le> e \<Longrightarrow> (2::rat) powi e = 2 ^ nat e"
  by (simp add: power_int_def)

lemma bitlen_rat_bounds:
  assumes "0 < a"
  shows "(2::rat) powi (bitlen a - 1) \<le> of_int a" and "of_int a < (2::rat) powi (bitlen a)"
proof -
  have b: "2 ^ nat (bitlen a - 1) \<le> a" "a < 2 ^ nat (bitlen a)"
    using bitlen_bounds [OF assms] by simp_all
  have pos: "1 \<le> bitlen a"
    using assms by (simp add: bitlen_def floorlog_def)
  have "(2::rat) powi (bitlen a - 1) = of_int (2 ^ nat (bitlen a - 1))"
    using pos by (simp add: powi_nat)
  also have "\<dots> \<le> of_int a"
    using b(1) by (simp only: of_int_le_iff)
  finally show "(2::rat) powi (bitlen a - 1) \<le> of_int a" .
  have "(of_int a :: rat) < of_int (2 ^ nat (bitlen a))"
    using b(2) by (simp only: of_int_less_iff)
  also have "\<dots> = 2 powi (bitlen a)"
    using pos by (simp add: powi_nat)
  finally show "of_int a < (2::rat) powi (bitlen a)" .
qed

lemma binade_bounds:
  assumes "0 < x"
  shows "2 powi (binade x) \<le> x \<and> x < 2 powi (binade x + 1)"
proof -
  obtain a b where q: "quotient_of x = (a, b)" by (cases "quotient_of x")
  have bpos: "0 < b" using q by (rule quotient_of_denom_pos)
  have x: "x = of_int a / of_int b" using q by (rule quotient_of_div)
  have apos: "0 < a"
    using assms bpos x by (simp add: zero_less_divide_iff)
  define d where "d = bitlen a - bitlen b"
  have A: "(2::rat) powi (bitlen a - 1) \<le> of_int a" "of_int a < (2::rat) powi (bitlen a)"
    using bitlen_rat_bounds [OF apos] by simp_all
  have B: "(2::rat) powi (bitlen b - 1) \<le> of_int b" "of_int b < (2::rat) powi (bitlen b)"
    using bitlen_rat_bounds [OF bpos] by simp_all
  have bq: "(0::rat) < of_int b" using bpos by simp
  have p1: "(0::rat) < 2 powi (bitlen b - 1)" and p2: "(0::rat) < 2 powi (bitlen b)"
    by simp_all
  have up: "x < 2 powi (d + 1)"
  proof -
    have "x < 2 powi (bitlen a) / of_int b"
      unfolding x using A(2) bq by (simp add: divide_strict_right_mono)
    also have "\<dots> \<le> 2 powi (bitlen a) / 2 powi (bitlen b - 1)"
      using B(1) p1 by (simp add: frac_le)
    also have "\<dots> = 2 powi (d + 1)"
      unfolding d_def by (simp add: power_int_diff [symmetric] algebra_simps)
    finally show ?thesis .
  qed
  have lo: "2 powi (d - 1) < x"
  proof -
    have "2 powi (d - 1) = (2::rat) powi (bitlen a - 1) / 2 powi (bitlen b)"
      unfolding d_def by (simp add: power_int_diff [symmetric] algebra_simps)
    also have "\<dots> < 2 powi (bitlen a - 1) / of_int b"
      using B(2) bq by (simp add: divide_strict_left_mono)
    also have "\<dots> \<le> x"
      unfolding x using A(1) bq by (simp add: divide_right_mono)
    finally show ?thesis .
  qed
  have bin: "binade x = (if 2 powi d \<le> x then d else d - 1)"
    by (simp add: binade_def q d_def Let_def)
  show ?thesis
  proof (cases "2 powi d \<le> x")
    case True
    then show ?thesis using bin up by simp
  next
    case False
    then show ?thesis using bin lo by simp
  qed
qed

lemma powi_lessD: "(2::rat) powi a < 2 powi b \<Longrightarrow> a < b"
proof (rule ccontr)
  assume lt: "(2::rat) powi a < 2 powi b" and "\<not> a < b"
  then have "b \<le> a" by simp
  then have "(2::rat) powi b \<le> 2 powi a"
    by (rule power_int_increasing) simp
  with lt show False by simp
qed

lemma binade_unique:
  assumes "2 powi e \<le> x" "x < 2 powi (e + 1)"
  shows "binade x = e"
proof -
  have xpos: "0 < x"
    using assms(1) by (rule less_le_trans [rotated]) simp
  have b: "2 powi (binade x) \<le> x" "x < 2 powi (binade x + 1)"
    using binade_bounds [OF xpos] by simp_all
  have "(2::rat) powi e < 2 powi (binade x + 1)"
    using assms(1) b(2) by linarith
  then have 1: "e < binade x + 1"
    by (rule powi_lessD)
  have "(2::rat) powi (binade x) < 2 powi (e + 1)"
    using assms(2) b(1) by linarith
  then have 2: "binade x < e + 1"
    by (rule powi_lessD)
  from 1 2 show ?thesis by linarith
qed

lemma binade_mono:
  assumes "0 < x" "x \<le> y"
  shows "binade x \<le> binade y"
proof -
  have ypos: "0 < y" using assms by linarith
  have "(2::rat) powi (binade x) \<le> x" using binade_bounds [OF assms(1)] by simp
  also have "x \<le> y" by fact
  also have "y < 2 powi (binade y + 1)" using binade_bounds [OF ypos] by simp
  finally have "binade x < binade y + 1"
    by (rule powi_lessD)
  then show ?thesis by linarith
qed

lemma dexp_ge: "- 1022 \<le> double_exponent a"
  by (simp add: double_exponent_def)

lemma dexp_upper:
  assumes "0 < a"
  shows "a < 2 powi (double_exponent a + 1)"
proof -
  have "a < 2 powi (binade a + 1)" using binade_bounds [OF assms] by simp
  also have "\<dots> \<le> 2 powi (double_exponent a + 1)"
    by (rule power_int_increasing) (simp_all add: double_exponent_def)
  finally show ?thesis .
qed

lemma dexp_mono:
  assumes "0 < x" "x \<le> y"
  shows "double_exponent x \<le> double_exponent y"
  using binade_mono [OF assms] by (simp add: double_exponent_def)

lemma powi_split: "(2::rat) powi (e + 1) = 2 ^ 53 * 2 powi (e - 52)"
proof -
  have "e + 1 = 53 + (e - 52)" by simp
  then have "(2::rat) powi (e + 1) = 2 powi (53 + (e - 52))" by (rule arg_cong)
  also have "\<dots> = 2 powi 53 * 2 powi (e - 52)"
    by (subst power_int_add) simp_all
  finally show ?thesis by simp
qed

lemma powi_split': "(2::rat) powi e = 2 ^ 52 * 2 powi (e - 52)"
proof -
  have "e = 52 + (e - 52)" by simp
  then have "(2::rat) powi e = 2 powi (52 + (e - 52))" by (rule arg_cong)
  also have "\<dots> = 2 powi 52 * 2 powi (e - 52)"
    by (subst power_int_add) simp_all
  finally show ?thesis by simp
qed

lemma dsig_nonneg:
  assumes "0 < a"
  shows "0 \<le> double_significand a"
proof -
  have "(0::rat) \<le> a / 2 powi (double_exponent a - 52)"
    using assms by simp
  then have "of_int 0 \<le> a / 2 powi (double_exponent a - 52)" by simp
  then show ?thesis
    unfolding double_significand_def by (rule rhe_ge_int)
qed

lemma dsig_upper:
  assumes "0 < a"
  shows "double_significand a \<le> 2 ^ 53"
proof -
  have u: "(0::rat) < 2 powi (double_exponent a - 52)" by simp
  have "a \<le> 2 ^ 53 * 2 powi (double_exponent a - 52)"
    using dexp_upper [OF assms] by (simp add: powi_split)
  then have "a / 2 powi (double_exponent a - 52) \<le> 2 ^ 53"
    using u by (simp add: pos_divide_le_eq)
  then have "a / 2 powi (double_exponent a - 52) \<le> of_int (2 ^ 53)" by simp
  then show ?thesis
    unfolding double_significand_def by (rule rhe_le_int)
qed

lemma dsig_lower:
  assumes "0 < a" "double_exponent a = binade a"
  shows "2 ^ 52 \<le> double_significand a"
proof -
  have u: "(0::rat) < 2 powi (double_exponent a - 52)" by simp
  have "2 powi (double_exponent a) \<le> a"
    using binade_bounds [OF assms(1)] assms(2) by simp
  then have "2 ^ 52 * 2 powi (double_exponent a - 52) \<le> a"
    by (simp only: powi_split' [symmetric])
  then have "2 ^ 52 \<le> a / 2 powi (double_exponent a - 52)"
    using u by (simp add: pos_le_divide_eq)
  then have "of_int (2 ^ 52) \<le> a / 2 powi (double_exponent a - 52)" by simp
  then show ?thesis
    unfolding double_significand_def by (rule rhe_ge_int)
qed

lemma dsig_mono_same:
  assumes "x \<le> y" "double_exponent x = double_exponent y"
  shows "double_significand x \<le> double_significand y"
proof -
  have "x / 2 powi (double_exponent y - 52) \<le> y / 2 powi (double_exponent y - 52)"
    using assms(1) by (simp add: divide_right_mono)
  then show ?thesis
    unfolding double_significand_def assms(2) by (rule rhe_mono)
qed

text \<open>The rounded magnitude.\<close>

lemma magnitude_mono:
  assumes "0 < x" "x \<le> y"
  shows "of_int (double_significand x) * 2 powi (double_exponent x - 52)
         \<le> (of_int (double_significand y) * 2 powi (double_exponent y - 52) :: rat)"
proof (cases "double_exponent x = double_exponent y")
  case True
  have "(of_int (double_significand x) :: rat) \<le> of_int (double_significand y)"
    using dsig_mono_same [OF assms(2) True] by simp
  then show ?thesis
    unfolding True by (simp add: mult_right_mono)
next
  case False
  have ypos: "0 < y" using assms by linarith
  have lt: "double_exponent x < double_exponent y"
    using dexp_mono [OF assms] False by linarith
  then have ey: "double_exponent y = binade y"
    using dexp_ge [of x] by (simp add: double_exponent_def max_def split: if_splits)
  have "of_int (double_significand x) * 2 powi (double_exponent x - 52)
          \<le> (2 ^ 53 * 2 powi (double_exponent x - 52) :: rat)"
  proof (rule mult_right_mono)
    have "(of_int (double_significand x) :: rat) \<le> of_int (2 ^ 53)"
      using dsig_upper [OF assms(1)] by (simp only: of_int_le_iff)
    then show "(of_int (double_significand x) :: rat) \<le> 2 ^ 53" by simp
  qed simp
  also have "\<dots> = 2 powi (double_exponent x + 1)"
    by (simp add: powi_split)
  also have "\<dots> \<le> 2 powi (double_exponent y)"
    using lt by (intro power_int_increasing) simp_all
  also have "\<dots> = 2 ^ 52 * 2 powi (double_exponent y - 52)"
    by (rule powi_split')
  also have "\<dots> \<le> of_int (double_significand y) * 2 powi (double_exponent y - 52)"
  proof (rule mult_right_mono)
    have "(of_int (2 ^ 52) :: rat) \<le> of_int (double_significand y)"
      using dsig_lower [OF ypos ey] by (simp only: of_int_le_iff)
    then show "(2 ^ 52 :: rat) \<le> of_int (double_significand y)" by simp
  qed simp
  finally show ?thesis .
qed

lemma overflows_mono:
  assumes "0 < x" "x \<le> y" "overflows x"
  shows "overflows y"
proof (cases "double_exponent x = double_exponent y")
  case True
  then show ?thesis
    using assms(3) dsig_mono_same [OF assms(2) True] by (auto simp: overflows_def)
next
  case False
  then have "double_exponent x < double_exponent y"
    using dexp_mono [OF assms(1,2)] by linarith
  then show ?thesis
    using assms(3) by (auto simp: overflows_def)
qed

lemma round_to_double_pos:
  assumes "0 < x"
  shows "round_to_double x =
           (if overflows x then PInf
            else Finite (of_int (double_significand x) * 2 powi (double_exponent x - 52)))"
  using assms by (simp add: round_to_double_def Let_def)

lemma round_to_double_mono_pos:
  assumes "0 < x" "x \<le> y"
  shows "float_le (round_to_double x) (round_to_double y)"
proof -
  have ypos: "0 < y" using assms by linarith
  show ?thesis
    using magnitude_mono [OF assms] overflows_mono [OF assms]
    by (auto simp: round_to_double_pos [OF assms(1)] round_to_double_pos [OF ypos] float_le_def)
qed

lemma round_to_double_nonneg:
  assumes "0 \<le> x"
  shows "float_le (Finite 0) (round_to_double x)"
proof (cases "x = 0")
  case True
  then show ?thesis by (simp add: round_to_double_def float_le_def)
next
  case False
  then have xpos: "0 < x" using assms by simp
  have "(0::rat) \<le> of_int (double_significand x) * 2 powi (double_exponent x - 52)"
    using dsig_nonneg [OF xpos] by simp
  then show ?thesis
    by (simp add: round_to_double_pos [OF xpos] float_le_def)
qed

lemma round_to_double_mono:
  assumes "0 \<le> x" "x \<le> y"
  shows "float_le (round_to_double x) (round_to_double y)"
proof (cases "x = 0")
  case True
  have "0 \<le> y" using assms by linarith
  then show ?thesis
    using round_to_double_nonneg [of y] True by (simp add: round_to_double_def)
next
  case False
  then have "0 < x" using assms by simp
  then show ?thesis using assms(2) by (rule round_to_double_mono_pos)
qed

lemma round_to_double_nonpos:
  assumes "x \<le> 0"
  shows "float_le (round_to_double x) (Finite 0)"
proof (cases "x = 0")
  case True
  then show ?thesis by (simp add: round_to_double_def float_le_def)
next
  case False
  then have xneg: "x < 0" using assms by simp
  then have apos: "0 < \<bar>x\<bar>" by simp
  have "(0::rat) \<le> of_int (double_significand \<bar>x\<bar>) * 2 powi (double_exponent \<bar>x\<bar> - 52)"
    using dsig_nonneg [OF apos] by simp
  then show ?thesis
    using xneg by (simp add: round_to_double_def float_le_def Let_def)
qed

section \<open>What one post goes through\<close>

text \<open>
  A post reaches \<open>insert_reddit_post\<close> only along one path of the loop body: every
  check before the call has passed, and the arguments are the values computed on the way.
\<close>

lemma process_post_Insert:
  assumes "process_post fromisoformat now_parse now_check sub post = Inr (Insert s pid url sc created)"
  shows "\<exists>title dv href.
           h3_inner_text post = Some title \<and> str_strip title \<noteq> []
         \<and> read_timestamp fromisoformat now_parse post = Inr (Some dv)
         \<and> \<not> float_gt_int (age_hours now_check (wall_clock dv)) POST_MAX_AGE_HOURS
         \<and> permalink_href post = Some (Some href) \<and> href \<noteq> []
         \<and> url = resolve_permalink href \<and> pid = derive_post_id url
         \<and> (case score_inner_text post of
                None \<Rightarrow> Inr 0
              | Some score_text \<Rightarrow> parse_score_text (str_strip score_text)) = Inr sc
         \<and> s = sub \<and> created = wall_clock dv"
  using assms
  by (auto simp: process_post_def Let_def
           split: option.splits if_splits sum.splits)



lemma process_post_not_too_old:
  assumes "read_timestamp fromisoformat now_parse post = Inr (Some dv)"
    and "\<not> float_gt_int (age_hours now_check (wall_clock dv)) POST_MAX_AGE_HOURS"
  shows "process_post fromisoformat now_parse now_check sub post \<noteq> Inr (Skipped TooOld)"
  using assms
  by (auto simp: process_post_def Let_def split: option.splits sum.splits)



section \<open>The age check\<close>

text \<open>
  The age check computes in floating point. It agrees with the exact comparison of the
  age in microseconds with the window: the two roundings are monotone, exact at the
  window, and one microsecond past the window they give a value above 4.
\<close>

lemma float_le_FiniteD:
  assumes "float_le (Finite c) s"
  shows "s = PInf \<or> (\<exists>p. s = Finite p \<and> c \<le> p)"
  using assms by (cases s) (simp_all add: float_le_def)

lemma float_le_FiniteD2:
  assumes "float_le s (Finite c)"
  shows "s = NInf \<or> (\<exists>p. s = Finite p \<and> p \<le> c)"
  using assms by (cases s) (simp_all add: float_le_def)

lemma seconds_at_window: "round_to_double (14400000000 / 1000000) = Finite 14400"
  by code_simp

lemma hours_at_window: "round_to_double (14400 / 3600) = Finite 4"
  by code_simp

lemma seconds_past_window:
  "round_to_double (14400000001 / 1000000) = Finite (1979120930134239 / 137438953472)"
  by code_simp

lemma hours_past_window:
  "round_to_double (1979120930134239 / 137438953472 / 3600)
     = Finite (2251799813841623 / 562949953421312)"
  by code_simp

lemma within_window_not_old:
  assumes "us \<le> 14400000000"
  shows "\<not> float_gt_int (float_div_pos (total_seconds us) 3600) 4"
proof (cases "0 \<le> us")
  case True
  have "float_le (total_seconds us) (round_to_double (14400000000 / 1000000))"
    unfolding total_seconds_def
  proof (rule round_to_double_mono)
    show "(0::rat) \<le> of_int us / 1000000" using True by simp
    show "(of_int us :: rat) / 1000000 \<le> 14400000000 / 1000000"
      using assms by (simp add: divide_right_mono)
  qed
  then have up: "float_le (total_seconds us) (Finite 14400)"
    by (simp only: seconds_at_window)
  have "float_le (Finite 0) (total_seconds us)"
    unfolding total_seconds_def by (rule round_to_double_nonneg) (use True in simp)
  with up obtain p where p: "total_seconds us = Finite p" "0 \<le> p" "p \<le> 14400"
    by (cases "total_seconds us") (simp_all add: float_le_def)
  have "float_le (round_to_double (p / 3600)) (round_to_double (14400 / 3600))"
    by (rule round_to_double_mono) (use p in \<open>simp_all add: divide_right_mono\<close>)
  then have "float_le (round_to_double (p / 3600)) (Finite 4)"
    by (simp only: hours_at_window)
  then show ?thesis
    using p(1) by (cases "round_to_double (p / 3600)")
      (simp_all add: float_div_pos_def float_gt_int_def float_le_def)
next
  case False
  then have "(of_int us :: rat) / 1000000 \<le> 0" by simp
  then have "float_le (total_seconds us) (Finite 0)"
    unfolding total_seconds_def by (rule round_to_double_nonpos)
  then consider "total_seconds us = NInf" | p where "total_seconds us = Finite p" "p \<le> 0"
    using float_le_FiniteD2 by blast
  then show ?thesis
  proof cases
    case 1
    then show ?thesis by (simp add: float_div_pos_def float_gt_int_def)
  next
    case 2
    have "float_le (round_to_double (p / 3600)) (Finite 0)"
      by (rule round_to_double_nonpos) (use 2 in simp)
    then show ?thesis
      using 2(1) by (cases "round_to_double (p / 3600)")
        (simp_all add: float_div_pos_def float_gt_int_def float_le_def)
  qed
qed

lemma past_window_old:
  assumes "14400000000 < us"
  shows "float_gt_int (float_div_pos (total_seconds us) 3600) 4"
proof -
  have "float_le (round_to_double (14400000001 / 1000000)) (total_seconds us)"
    unfolding total_seconds_def
  proof (rule round_to_double_mono)
    have "(14400000001 :: int) \<le> us" using assms by simp
    then have "(of_int 14400000001 :: rat) \<le> of_int us" by (simp only: of_int_le_iff)
    then show "(14400000001 :: rat) / 1000000 \<le> of_int us / 1000000"
      by (simp add: divide_right_mono)
  qed simp
  then have "float_le (Finite (1979120930134239 / 137438953472)) (total_seconds us)"
    by (simp only: seconds_past_window)
  then consider "total_seconds us = PInf"
    | p where "total_seconds us = Finite p" "1979120930134239 / 137438953472 \<le> p"
    using float_le_FiniteD by blast
  then show ?thesis
  proof cases
    case 1
    then show ?thesis by (simp add: float_div_pos_def float_gt_int_def)
  next
    case 2
    have "float_le (round_to_double (1979120930134239 / 137438953472 / 3600))
            (round_to_double (p / 3600))"
      by (rule round_to_double_mono) (use 2 in \<open>simp_all add: divide_right_mono\<close>)
    then have "float_le (Finite (2251799813841623 / 562949953421312)) (round_to_double (p / 3600))"
      by (simp only: hours_past_window)
    then show ?thesis
      using 2(1) by (cases "round_to_double (p / 3600)")
        (simp_all add: float_div_pos_def float_gt_int_def float_le_def)
  qed
qed

lemma too_old_iff:
  "float_gt_int (age_hours now created) POST_MAX_AGE_HOURS
     \<longleftrightarrow> POST_MAX_AGE_HOURS * us_per_hour < now - created"
proof -
  have w: "POST_MAX_AGE_HOURS * us_per_hour = 14400000000"
    by (simp add: POST_MAX_AGE_HOURS_def us_per_hour_def)
  have "float_gt_int (float_div_pos (total_seconds (now - created)) 3600) 4
          \<longleftrightarrow> 14400000000 < now - created"
    using within_window_not_old [of "now - created"] past_window_old [of "now - created"]
    by fastforce
  then show ?thesis
    unfolding w unfolding age_hours_def POST_MAX_AGE_HOURS_def .
qed

section \<open>The sign of a parsed number\<close>


















section \<open>Splitting the post id out of the URL\<close>








section \<open>Durations from the relative-age text\<close>






























section \<open>The staleness filter\<close>

lemma old_post_outcome:
  "process_post (\<lambda>s. None) 63000000000000000 63000000000000000 ''x''
     (example_post\<lparr>timestamp_anchor :=
        Some \<lparr>time_datetime = None, anchor_inner_text = ''6 hours ago''\<rparr>\<rparr>)
   = Inr (Skipped TooOld)"
  by code_simp



lemma boundary_post_outcome:
  "process_post (\<lambda>s. None) 63000000000000000 63000000000000000 ''x''
     (example_post\<lparr>timestamp_anchor :=
        Some \<lparr>time_datetime = None, anchor_inner_text = ''4 hours ago''\<rparr>\<rparr>)
   = Inr (Insert ''x'' ''abc123'' ''https://www.reddit.com/r/x/comments/abc123/title/'' 2300
              62999985600000000)"
  by code_simp

lemma boundary_post_timestamp:
  "read_timestamp (\<lambda>s. None) 63000000000000000
     (example_post\<lparr>timestamp_anchor :=
        Some \<lparr>time_datetime = None, anchor_inner_text = ''4 hours ago''\<rparr>\<rparr>)
   = Inr (Some \<lparr>wall_clock = 62999985600000000, tz_offset = None\<rparr>)"
  by code_simp

text \<open>
  C10. The window is inclusive. A post exactly \<open>POST_MAX_AGE_HOURS\<close> old is not skipped
  by the age check, and one microsecond more is skipped: the check skips only an age
  strictly greater than the window.
\<close>

theorem staleness_boundary_inclusive:
  "\<not> float_gt_int (age_hours (created + POST_MAX_AGE_HOURS * us_per_hour) created)
        POST_MAX_AGE_HOURS
   \<and> float_gt_int (age_hours (created + POST_MAX_AGE_HOURS * us_per_hour + 1) created)
        POST_MAX_AGE_HOURS
   \<and> (read_timestamp fromisoformat now_parse post = Inr (Some dv)
        \<and> now_check - wall_clock dv = POST_MAX_AGE_HOURS * us_per_hour
      \<longrightarrow> process_post fromisoformat now_parse now_check sub post \<noteq> Inr (Skipped TooOld))"
proof (intro conjI impI)
  show "\<not> float_gt_int (age_hours (created + POST_MAX_AGE_HOURS * us_per_hour) created)
        POST_MAX_AGE_HOURS"
    by (simp add: too_old_iff)
  show "float_gt_int (age_hours (created + POST_MAX_AGE_HOURS * us_per_hour + 1) created)
        POST_MAX_AGE_HOURS"
    by (simp add: too_old_iff)
  assume a: "read_timestamp fromisoformat now_parse post = Inr (Some dv)
        \<and> now_check - wall_clock dv = POST_MAX_AGE_HOURS * us_per_hour"
  then have "\<not> float_gt_int (age_hours now_check (wall_clock dv)) POST_MAX_AGE_HOURS"
    by (simp add: too_old_iff)
  with a show "process_post fromisoformat now_parse now_check sub post \<noteq> Inr (Skipped TooOld)"
    using process_post_not_too_old by blast
qed

theorem staleness_boundary_inclusive_witness:
  "read_timestamp (\<lambda>s. None) 63000000000000000
     (example_post\<lparr>timestamp_anchor :=
        Some \<lparr>time_datetime = None, anchor_inner_text = ''4 hours ago''\<rparr>\<rparr>)
     = Inr (Some \<lparr>wall_clock = 62999985600000000, tz_offset = None\<rparr>)
   \<and> 63000000000000000 - 62999985600000000 = POST_MAX_AGE_HOURS * us_per_hour
   \<and> process_post (\<lambda>s. None) 63000000000000000 63000000000000000 ''x''
        (example_post\<lparr>timestamp_anchor :=
           Some \<lparr>time_datetime = None, anchor_inner_text = ''4 hours ago''\<rparr>\<rparr>)
       \<noteq> Inr (Skipped TooOld)"
  using staleness_boundary_inclusive [of 0 "\<lambda>s. None" 63000000000000000
      "example_post\<lparr>timestamp_anchor :=
           Some \<lparr>time_datetime = None, anchor_inner_text = ''4 hours ago''\<rparr>\<rparr>"
      "\<lparr>wall_clock = 62999985600000000, tz_offset = None\<rparr>" 63000000000000000 "''x''"]
    boundary_post_timestamp
  by (simp add: POST_MAX_AGE_HOURS_def us_per_hour_def)

section \<open>The score parser\<close>




text \<open>
  C3. \<open>parse_score_text\<close> is not total. The \<open>try\<close> catches \<open>ValueError\<close>, which is what
  \<open>int\<close> raises on a NaN, so \<open>nan\<close> gives 0; on an infinity \<open>int\<close> raises
  \<open>OverflowError\<close>, which is not caught and leaves the function.
\<close>

theorem score_of_infinity_raises:
  "parse_score_text ''inf'' = Inl OverflowError
   \<and> parse_score_text ''infinity k'' = Inl OverflowError
   \<and> parse_score_text ''nan'' = Inr 0"
  by code_simp

section \<open>The post id\<close>




section \<open>The relative-age parser\<close>







section \<open>Permalink resolution\<close>

text \<open>
  C7. A permalink that starts with \<open>/\<close> is prefixed with the origin
  \<open>https://www.reddit.com\<close>, any other is used as it is; the href
  \<open>/r/x/comments/abc123/title/\<close> resolves to an absolute URL on that origin and gives the
  post id \<open>abc123\<close>. A post that is saved carries the URL resolved from its permalink
  and the id derived from that URL.
\<close>

theorem permalink_resolution:
  "(str_startswith href ''/'' \<longrightarrow> resolve_permalink href = ''https://www.reddit.com'' @ href)
   \<and> (\<not> str_startswith href ''/'' \<longrightarrow> resolve_permalink href = href)
   \<and> resolve_permalink ''/r/x/comments/abc123/title/''
         = ''https://www.reddit.com/r/x/comments/abc123/title/''
   \<and> derive_post_id (resolve_permalink ''/r/x/comments/abc123/title/'') = ''abc123''
   \<and> (process_post fromisoformat now_parse now_check sub post = Inr (Insert s pid url sc created)
        \<longrightarrow> (\<exists>h. permalink_href post = Some (Some h) \<and> url = resolve_permalink h
                 \<and> pid = derive_post_id url))"
proof -
  have rel: "str_startswith href ''/'' \<longrightarrow> resolve_permalink href = ''https://www.reddit.com'' @ href"
    by (simp add: resolve_permalink_def)
  have abs: "\<not> str_startswith href ''/'' \<longrightarrow> resolve_permalink href = href"
    by (simp add: resolve_permalink_def)
  have ex1: "resolve_permalink ''/r/x/comments/abc123/title/''
         = ''https://www.reddit.com/r/x/comments/abc123/title/''"
    by code_simp
  have ex2: "derive_post_id (resolve_permalink ''/r/x/comments/abc123/title/'') = ''abc123''"
    by code_simp
  have pipe: "process_post fromisoformat now_parse now_check sub post = Inr (Insert s pid url sc created)
        \<longrightarrow> (\<exists>h. permalink_href post = Some (Some h) \<and> url = resolve_permalink h
                 \<and> pid = derive_post_id url)"
    using process_post_Insert by blast
  from rel abs ex1 ex2 pipe show ?thesis by blast
qed

theorem permalink_resolution_witness:
  "str_startswith ''/r/x/comments/abc123/title/'' ''/''
   \<and> resolve_permalink ''/r/x/comments/abc123/title/''
        = ''https://www.reddit.com/r/x/comments/abc123/title/''
   \<and> \<not> str_startswith ''https://redd.it/abc'' ''/''
   \<and> resolve_permalink ''https://redd.it/abc'' = ''https://redd.it/abc''"
  using permalink_resolution [of "''/r/x/comments/abc123/title/''"]
        permalink_resolution [of "''https://redd.it/abc''"]
  by (simp add: str_startswith_def)

section \<open>The store keeps one row per post id\<close>

lemma insert_keeps_unique:
  "distinct (map post_id conn) \<Longrightarrow> distinct (map post_id (insert_reddit_post conn t s pid u sc c))"
  by (simp add: insert_reddit_post_def)

lemma insert_present:
  "pid \<in> set (map post_id (insert_reddit_post conn t s pid u sc c))"
  by (simp add: insert_reddit_post_def)

lemma filter_unique_row:
  "distinct (map post_id conn) \<Longrightarrow> r \<in> set conn \<Longrightarrow> filter (\<lambda>x. post_id x = post_id r) conn = [r]"
proof (induction conn)
  case Nil
  then show ?case by simp
next
  case (Cons a conn)
  show ?case
  proof (cases "a = r")
    case True
    have "post_id r \<notin> set (map post_id conn)"
      using Cons.prems(1) True by simp
    then have "\<forall>x\<in>set conn. post_id x \<noteq> post_id r"
      by (metis image_eqI set_map)
    then have "filter (\<lambda>x. post_id x = post_id r) conn = []"
      by (simp add: filter_empty_conv)
    with True show ?thesis by simp
  next
    case False
    then have rin: "r \<in> set conn" using Cons.prems(2) by simp
    then have "post_id a \<noteq> post_id r" using Cons.prems(1) by force
    moreover have "filter (\<lambda>x. post_id x = post_id r) conn = [r]"
      using Cons.IH Cons.prems(1) rin by simp
    ultimately show ?thesis by simp
  qed
qed

text \<open>
  C8. Inserting a post whose \<open>post_id\<close> is already in the store changes nothing: the
  store after the second insert is the store after the first, it holds exactly one row
  with that id, and when the first insert created the row, the row keeps the
  \<open>created_at\<close> and \<open>seen_at\<close> of the first insert. The insert returns the store and has
  no error to raise.
\<close>

theorem duplicate_insert_is_noop:
  assumes uniq: "distinct (map post_id conn)"
  shows "(let first = insert_reddit_post conn t1 s1 pid u1 sc1 c1;
              again = insert_reddit_post first t2 s2 pid u2 sc2 c2
          in again = first
             \<and> distinct (map post_id again)
             \<and> (\<exists>row. filter (\<lambda>r. post_id r = pid) again = [row]
                  \<and> (pid \<notin> set (map post_id conn)
                        \<longrightarrow> created_at row = c1 \<and> seen_at row = t1 \<and> \<not> commented row)))"
proof -
  define first where "first = insert_reddit_post conn t1 s1 pid u1 sc1 c1"
  define again where "again = insert_reddit_post first t2 s2 pid u2 sc2 c2"
  have present: "pid \<in> set (map post_id first)"
    unfolding first_def by (rule insert_present)
  have same: "again = first"
    unfolding again_def using present by (simp add: insert_reddit_post_def)
  have uniq1: "distinct (map post_id first)"
    unfolding first_def using uniq by (rule insert_keeps_unique)
  obtain row where row: "row \<in> set first" "post_id row = pid"
    using present by auto
  have one: "filter (\<lambda>r. post_id r = pid) first = [row]"
    using filter_unique_row [OF uniq1 row(1)] row(2) by simp
  have orig: "created_at row = c1 \<and> seen_at row = t1 \<and> \<not> commented row"
    if fresh: "pid \<notin> set (map post_id conn)"
  proof -
    have "first = conn @ [\<lparr>subreddit = s1, post_id = pid, post_url = u1, score = sc1,
                    created_at = c1, seen_at = t1, commented = False\<rparr>]"
      unfolding first_def using fresh by (simp add: insert_reddit_post_def)
    with row fresh have "row = \<lparr>subreddit = s1, post_id = pid, post_url = u1, score = sc1,
                    created_at = c1, seen_at = t1, commented = False\<rparr>"
      by auto
    then show ?thesis by simp
  qed
  show ?thesis
    using same uniq1 one orig
    unfolding first_def [symmetric] again_def [symmetric] Let_def by auto
qed

theorem duplicate_insert_is_noop_witness:
  "insert_reddit_post (insert_reddit_post [] 100 ''Outdoors'' ''abc123'' ''u'' 4 50)
       200 ''Outdoors'' ''abc123'' ''u'' 9 70
     = [\<lparr>subreddit = ''Outdoors'', post_id = ''abc123'', post_url = ''u'', score = 4,
          created_at = 50, seen_at = 100, commented = False\<rparr>]"
  using duplicate_insert_is_noop [of "[]" 100 "''Outdoors''" "''abc123''" "''u''" 4 50 200 "''Outdoors''" "''u''" 9 70]
  by (simp add: insert_reddit_post_def Let_def)

section \<open>The forums of a run\<close>

lemma distinct_sample:
  assumes "distinct xs" "distinct picks" "list_all (\<lambda>i. i < length xs) picks"
  shows "distinct (map (\<lambda>i. xs ! i) picks)"
proof -
  have "inj_on (\<lambda>i. xs ! i) (set picks)"
  proof (rule inj_onI)
    fix i j
    assume "i \<in> set picks" "j \<in> set picks" "xs ! i = xs ! j"
    moreover have "i < length xs" "j < length xs"
      using assms(3) \<open>i \<in> set picks\<close> \<open>j \<in> set picks\<close> by (auto simp: list_all_iff)
    ultimately show "i = j"
      using assms(1) by (simp add: nth_eq_iff_index_eq)
  qed
  with assms(2) show ?thesis by (simp add: distinct_map)
qed

text \<open>
  C9, as stated, fails for a forum list that names a forum twice: \<open>random.sample\<close>
  picks no position twice, but the two positions of one name can both be picked.
\<close>

theorem selecting_repeated_name_counterexample:
  "randint_draw BATCH_MIN BATCH_MAX 13
   \<and> sample_draw (length [''Outdoors'', ''Outdoors''])
         (batch_size [''Outdoors'', ''Outdoors''] 13) [0, 1]
   \<and> get_subreddits_for_this_loop [''Outdoors'', ''Outdoors''] 13 [0, 1]
       = Inr [''Outdoors'', ''Outdoors'']"
  by (simp add: randint_draw_def sample_draw_def batch_size_def BATCH_MIN_def BATCH_MAX_def
        get_subreddits_for_this_loop_def random_sample_def)

text \<open>
  C9, amended. For an empty forum list the selection is empty. For a forum list that is
  not empty, whatever \<open>random.randint\<close> and \<open>random.sample\<close> draw, the selection has
  between \<open>min BATCH_MIN n\<close> and \<open>min BATCH_MAX n\<close> forums of the list, \<open>n\<close> being the
  length of the list; and when the list names no forum twice, as \<open>SUBREDDITS\<close> does, the
  selection names no forum twice.
\<close>

theorem selecting_phase:
  assumes draw: "randint_draw BATCH_MIN BATCH_MAX r"
    and sample: "sample_draw (length subs) (batch_size subs r) picks"
  shows "get_subreddits_for_this_loop [] r picks = Inr []
         \<and> (subs \<noteq> [] \<longrightarrow>
              (\<exists>selected. get_subreddits_for_this_loop subs r picks = Inr selected
                 \<and> min BATCH_MIN (length subs) \<le> length selected
                 \<and> length selected \<le> min BATCH_MAX (length subs)
                 \<and> set selected \<subseteq> set subs
                 \<and> (distinct subs \<longrightarrow> distinct selected)))"
proof -
  define selected where "selected = map (\<lambda>i. subs ! i) picks"
  have len: "length selected = min (length subs) r"
    using sample by (simp add: selected_def sample_draw_def batch_size_def)
  have inside: "list_all (\<lambda>i. i < length subs) picks" and dp: "distinct picks"
    using sample by (simp_all add: sample_draw_def)
  have empty: "get_subreddits_for_this_loop [] r picks = Inr []"
    by (simp add: get_subreddits_for_this_loop_def)
  have run: "get_subreddits_for_this_loop subs r picks = Inr selected" if "subs \<noteq> []"
    using that
    by (simp add: get_subreddits_for_this_loop_def random_sample_def batch_size_def selected_def)
  have lo: "min BATCH_MIN (length subs) \<le> length selected"
    using draw len unfolding randint_draw_def by linarith
  have hi: "length selected \<le> min BATCH_MAX (length subs)"
    using draw len unfolding randint_draw_def by linarith
  have sub: "set selected \<subseteq> set subs"
    using inside by (auto simp: selected_def list_all_iff)
  have dist: "distinct selected" if "distinct subs"
    unfolding selected_def using that dp inside by (rule distinct_sample)
  from empty run lo hi sub dist show ?thesis by blast
qed

lemma selecting_example_draws:
  "randint_draw BATCH_MIN BATCH_MAX 20
   \<and> sample_draw (length SUBREDDITS) (batch_size SUBREDDITS 20) [3, 0, 5, 1, 4, 2]
   \<and> distinct SUBREDDITS \<and> SUBREDDITS \<noteq> []"
  by (simp add: randint_draw_def sample_draw_def batch_size_def BATCH_MIN_def BATCH_MAX_def
        SUBREDDITS_def)

theorem selecting_phase_witness:
  "randint_draw BATCH_MIN BATCH_MAX 20
   \<and> sample_draw (length SUBREDDITS) (batch_size SUBREDDITS 20) [3, 0, 5, 1, 4, 2]
   \<and> distinct SUBREDDITS
   \<and> get_subreddits_for_this_loop SUBREDDITS 20 [3, 0, 5, 1, 4, 2]
       = Inr [''TacticalGirls'', ''GirlsWithGuns'', ''Bushcraft'', ''CountryGirls'', ''Outdoors'',
              ''CamoGirls'']
   \<and> distinct [''TacticalGirls'', ''GirlsWithGuns'', ''Bushcraft'', ''CountryGirls'',
                 ''Outdoors'', ''CamoGirls'']"
proof -
  have run: "get_subreddits_for_this_loop SUBREDDITS 20 [3, 0, 5, 1, 4, 2]
       = Inr [''TacticalGirls'', ''GirlsWithGuns'', ''Bushcraft'', ''CountryGirls'', ''Outdoors'',
              ''CamoGirls'']"
    by (simp add: get_subreddits_for_this_loop_def random_sample_def batch_size_def SUBREDDITS_def)
  from selecting_phase [of 20 SUBREDDITS "[3, 0, 5, 1, 4, 2]"] selecting_example_draws
  have "\<exists>selected. get_subreddits_for_this_loop SUBREDDITS 20 [3, 0, 5, 1, 4, 2] = Inr selected
          \<and> distinct selected"
    by blast
  with run have "distinct [''TacticalGirls'', ''GirlsWithGuns'', ''Bushcraft'', ''CountryGirls'',
                 ''Outdoors'', ''CamoGirls'']"
    by auto
  with run selecting_example_draws show ?thesis by blast
qed

end
